theory Spec2Isabelle
  imports Main "HOL-Library.Char_ord" "HOL-Library.List_Lexorder" "HOL-Library.Product_Lexorder"
    "HOL-Library.Multiset" "HOL-Library.Word"
begin

section \<open>Python values used by the dashboard\<close>

text \<open>
  The program is one Streamlit script, \<^verbatim>\<open>streamlit_dashboard.py\<close>. Its tables are pandas
  data frames read from CSV files; a table is modelled as the list of its rows, a row as a
  record, and a cell that pandas holds as NaN, None or NaT as \<open>None\<close>.

  A Python \<^verbatim>\<open>str\<close> is modelled as a \<open>string\<close> whose characters are the code points
  below 256 (Latin-1); strings with other code points are outside the model. Strings are
  compared as Python compares them, code point by code point (the lexicographic order on
  \<open>char list\<close>).

  Python exceptions are values of the type \<open>error\<close>; a function that may raise returns
  \<open>error + 'a\<close> with \<open>Inl\<close> for the exception.
\<close>

datatype error = ValueError | IndexError | KeyError | TypeError

subsection \<open>String methods\<close>

text \<open>\<^verbatim>\<open>s.startswith(prefix)\<close>.\<close>

definition startswith :: "string \<Rightarrow> string \<Rightarrow> bool" where
  "startswith s prefix = (take (length prefix) s = prefix)"

text \<open>
  \<^verbatim>\<open>str.isdigit\<close> holds of a non-empty string whose characters all have the Unicode
  property Numeric_Type=Digit or Numeric_Type=Decimal. Below code point 256 these are the
  ten decimal digits and the superscripts U+00B2, U+00B3 and U+00B9.
\<close>

definition isdecimal_char :: "char \<Rightarrow> bool" where
  "isdecimal_char c = (CHR ''0'' \<le> c \<and> c \<le> CHR ''9'')"

definition isdigit_char :: "char \<Rightarrow> bool" where
  "isdigit_char c = (isdecimal_char c \<or> c = CHR 0xB2 \<or> c = CHR 0xB3 \<or> c = CHR 0xB9)"

definition isdigit :: "string \<Rightarrow> bool" where
  "isdigit s = (s \<noteq> [] \<and> list_all isdigit_char s)"

text \<open>
  \<^verbatim>\<open>int(s)\<close>, on the strings the program passes to it: those for which \<^verbatim>\<open>s.isdigit()\<close>
  holds. It reads decimal digits and raises ValueError on a superscript digit, which is a
  digit for \<^verbatim>\<open>isdigit\<close> but no decimal character. (Signs, blanks and underscores, which
  \<^verbatim>\<open>int\<close> also accepts, never reach it here; CPython's configurable limit on the number of
  digits is not modelled.)
\<close>

definition digit_val :: "char \<Rightarrow> nat" where
  "digit_val c = of_char c - 48"

definition py_int :: "string \<Rightarrow> error + nat" where
  "py_int s =
     (if s \<noteq> [] \<and> list_all isdecimal_char s
      then Inr (foldl (\<lambda>acc c. 10 * acc + digit_val c) 0 s)
      else Inl ValueError)"

text \<open>
  The list comprehension \<^verbatim>\<open>[int(x) for x in xs]\<close>: the first conversion that raises ends it.
\<close>

fun int_all :: "string list \<Rightarrow> error + nat list" where
  "int_all [] = Inr []"
| "int_all (s # ss) =
     (case py_int s of
        Inl e \<Rightarrow> Inl e
      | Inr n \<Rightarrow> (case int_all ss of Inl e \<Rightarrow> Inl e | Inr ns \<Rightarrow> Inr (n # ns)))"

text \<open>\<^verbatim>\<open>str(n)\<close> for a natural number, and the format \<^verbatim>\<open>f"{n:03d}"\<close>.\<close>

definition digit_char :: "nat \<Rightarrow> char" where
  "digit_char d = char_of (48 + d)"

fun str_nat :: "nat \<Rightarrow> string" where
  "str_nat n = (if n < 10 then [digit_char n] else str_nat (n div 10) @ [digit_char (n mod 10)])"

declare str_nat.simps [simp del]

definition format_03d :: "nat \<Rightarrow> string" where
  "format_03d n = replicate (3 - length (str_nat n)) (CHR ''0'') @ str_nat n"

text \<open>
  \<^verbatim>\<open>s.strip()\<close>: the characters Python counts as whitespace, below code point 256, are
  U+0009 to U+000D, U+001C to U+0020, U+0085 and U+00A0.
\<close>

definition isspace_char :: "char \<Rightarrow> bool" where
  "isspace_char c =
     ((CHR 0x09 \<le> c \<and> c \<le> CHR 0x0D) \<or> (CHR 0x1C \<le> c \<and> c \<le> CHR 0x20)
      \<or> c = CHR 0x85 \<or> c = CHR 0xA0)"

definition strip :: "string \<Rightarrow> string" where
  "strip s = rev (dropWhile isspace_char (rev (dropWhile isspace_char s)))"

text \<open>
  \<^verbatim>\<open>s.lower()\<close> below code point 256: the letters A to Z, and U+00C0 to U+00DE without the
  multiplication sign U+00D7, move up by 32.
\<close>

definition lower_char :: "char \<Rightarrow> char" where
  "lower_char c =
     (if (CHR ''A'' \<le> c \<and> c \<le> CHR ''Z'') \<or> (CHR 0xC0 \<le> c \<and> c \<le> CHR 0xDE \<and> c \<noteq> CHR 0xD7)
      then char_of (of_char c + (32 :: nat)) else c)"

definition lower :: "string \<Rightarrow> string" where
  "lower s = map lower_char s"

text \<open>
  \<^verbatim>\<open>Series.unique()\<close> and \<^verbatim>\<open>nunique()\<close> keep the first occurrence of each value, in
  order of appearance.
\<close>

fun unique :: "'a list \<Rightarrow> 'a list" where
  "unique [] = []"
| "unique (x # xs) = x # unique (filter (\<lambda>y. y \<noteq> x) xs)"

text \<open>
  Streamlit's \<^verbatim>\<open>st.selectbox(label, options, index=0)\<close> returns the option the user picked,
  the first option when nothing valid is picked, and None when there are no options. The
  user's pick is a position in the list.
\<close>

definition selectbox :: "'a list \<Rightarrow> nat \<Rightarrow> 'a option" where
  "selectbox options pick =
     (if options = [] then None
      else if pick < length options then Some (options ! pick)
      else Some (options ! 0))"

section \<open>The tables\<close>

text \<open>
  A row of \<^verbatim>\<open>events_june.csv\<close>, of \<^verbatim>\<open>assignments_june.csv\<close> and of
  \<^verbatim>\<open>volunteers_june.csv\<close>. The column \<^verbatim>\<open>type\<close> is the field \<open>etype\<close> and the
  column \<^verbatim>\<open>alias\<close> the field \<open>alias_col\<close>. Both events and assignments carry the
  column \<^verbatim>\<open>event_id\<close>. The column \<^verbatim>\<open>required\<close> is a pandas column of 64-bit
  integers, whose arithmetic wraps around; a cell is a 64-bit word read as two's
  complement.
\<close>

type_synonym int64 = "64 word"

record keyed =
  event_id :: "string option"

record event = keyed +
  etype :: "string option"
  school_name :: "string option"
  event_name :: "string option"
  grade :: "string option"
  num_students :: "int option"
  date :: "string option"
  start_time :: "string option"
  end_time :: "string option"
  required :: "int64 option"

record assignment = keyed +
  volunteer :: "string option"

record volunteer_row =
  first_name :: "string option"
  last_name :: "string option"
  alias_col :: "string option"

text \<open>
  A row of \<^verbatim>\<open>merged_df\<close>, the left join of the assignments with the events on
  \<^verbatim>\<open>event_id\<close>: the columns of an event, the assigned volunteer, and the two columns
  \<^verbatim>\<open>pd.to_datetime\<close> computes from the date and the times, which are NaT (\<open>None\<close>)
  where the text does not parse. A timestamp counts nanoseconds; \<^verbatim>\<open>.dt.date\<close> is its day.
\<close>

type_synonym timestamp = int

record entry = event +
  volunteer :: "string option"
  datetime_start :: "timestamp option"
  datetime_end :: "timestamp option"

definition dt_date :: "timestamp \<Rightarrow> int" where
  "dt_date t = t div 86400000000000"

text \<open>How an f-string shows a cell: a missing one reads \<^verbatim>\<open>nan\<close>.\<close>

definition fmt :: "string option \<Rightarrow> string" where
  "fmt cell = (case cell of None \<Rightarrow> ''nan'' | Some s \<Rightarrow> s)"

section \<open>Volunteer names\<close>

text \<open>
  \<^verbatim>\<open>load_volunteers\<close> adds the column \<^verbatim>\<open>full_name\<close>. \<^verbatim>\<open>name_map\<close> is the dictionary
  of a Series with the full names as values and \<^verbatim>\<open>alias.fillna(full_name)\<close> as index; a
  dictionary built from a repeated key keeps the last value, so the lookup goes through
  the rows from the last to the first.
\<close>

definition full_name :: "volunteer_row \<Rightarrow> string" where
  "full_name v =
     strip (case first_name v of None \<Rightarrow> [] | Some s \<Rightarrow> s) @ '' '' @
     strip (case last_name v of None \<Rightarrow> [] | Some s \<Rightarrow> s)"

definition name_key :: "volunteer_row \<Rightarrow> string" where
  "name_key v = (case alias_col v of None \<Rightarrow> full_name v | Some a \<Rightarrow> a)"

definition name_map :: "volunteer_row list \<Rightarrow> string \<rightharpoonup> string" where
  "name_map volunteers_df = map_of (rev (map (\<lambda>v. (name_key v, full_name v)) volunteers_df))"

text \<open>
  Line 43, for one cell of the column \<^verbatim>\<open>volunteer\<close>:
  \<^verbatim>\<open>.str.strip().map(name_map).fillna(assignments_df["volunteer"])\<close>.
\<close>

definition resolve_volunteer :: "volunteer_row list \<Rightarrow> string option \<Rightarrow> string option" where
  "resolve_volunteer volunteers_df raw =
     (case raw of
        None \<Rightarrow> None
      | Some r \<Rightarrow>
          (case name_map volunteers_df (strip r) of
             Some canonical \<Rightarrow> Some canonical
           | None \<Rightarrow> Some r))"

section \<open>Event identifiers\<close>

text \<open>
  \<^verbatim>\<open>generate_event_id(events, prefix)\<close>. \<^verbatim>\<open>events["event_id"].dropna()\<close> keeps the
  identifiers that are present; \<open>suffixes\<close> is the list the comprehension converts.
\<close>

definition suffixes :: "string list \<Rightarrow> string \<Rightarrow> string list" where
  "suffixes filtered prefix =
     filter isdigit (map (\<lambda>eid. drop (length prefix) eid) filtered)"

definition generate_event_id :: "'a keyed_scheme list \<Rightarrow> string \<Rightarrow> error + string" where
  "generate_event_id events prefix =
     (let existing_ids = List.map_filter event_id events;
          filtered = filter (\<lambda>eid. startswith eid prefix) existing_ids
      in if filtered = [] then Inr (prefix @ format_03d 1)
         else (case int_all (suffixes filtered prefix) of
                 Inl e \<Rightarrow> Inl e
               | Inr nums \<Rightarrow>
                   Inr (prefix @ format_03d (if nums \<noteq> [] then Max (set nums) + 1 else 1))))"

section \<open>Adding an event\<close>

text \<open>
  \<^verbatim>\<open>time_options(start_hour=8, end_hour=17)\<close>: the loop runs over the minutes of the day,
  and \<^verbatim>\<open>strftime("%H:%M")\<close> writes hours and minutes with two digits each.
\<close>

definition two_digits :: "nat \<Rightarrow> string" where
  "two_digits n = (if n < 10 then ''0'' else []) @ str_nat n"

definition strftime_HM :: "nat \<Rightarrow> string" where
  "strftime_HM minutes = two_digits (minutes div 60) @ '':'' @ two_digits (minutes mod 60)"

function time_loop :: "nat \<Rightarrow> nat \<Rightarrow> string list" where
  "time_loop current end_dt =
     (if current \<le> end_dt then strftime_HM current # time_loop (current + 30) end_dt else [])"
  by pat_completeness auto
termination
  by (relation "measure (\<lambda>(current, end_dt). Suc end_dt - current)") auto

declare time_loop.simps [simp del]

definition time_options :: "string list" where
  "time_options = time_loop (8 * 60) (17 * 60)"

definition type_prefix_map :: "(string \<times> string) list" where
  "type_prefix_map = [(''grg'', ''GRG''), (''course'', ''COR''), (''guiding'', ''GUI'')]"

definition type_labels :: "(string \<times> string) list" where
  "type_labels = [(''course'', ''Course''), (''grg'', ''GRG''), (''guiding'', ''Guiding'')]"

text \<open>
  What the user enters on the page: the position picked in each select box, the text
  and number inputs, the date (as \<^verbatim>\<open>date.strftime("%Y-%m-%d")\<close> writes it) and whether
  the button was pressed. The text and number inputs of a GRG event are not shown. The
  number of required volunteers is given as the 64-bit integer the column stores.
\<close>

record add_event_form =
  type_pick :: nat
  school_name_input :: string
  event_name_input :: string
  grade_input :: string
  num_students_input :: int
  date_input :: string
  start_pick :: nat
  end_pick :: nat
  required_input :: int64
  add_clicked :: bool

datatype add_event_result = NotSubmitted | EventNameRequired | EventAdded string

text \<open>
  \<^verbatim>\<open>show_add_event\<close>, with \<^verbatim>\<open>events_df\<close> passed in and returned. The CSV file is
  rewritten from \<^verbatim>\<open>events_df\<close> after each insert and read again on the next run, so the
  returned table is the one the next call receives.
\<close>

definition show_add_event ::
  "event list \<Rightarrow> add_event_form \<Rightarrow> error + (add_event_result \<times> event list)" where
  "show_add_event events_df form =
     (case [k. (k, v) \<leftarrow> type_labels,
              Some v = selectbox (map snd type_labels) (type_pick form)] of
        [] \<Rightarrow> Inl IndexError
      | event_type # _ \<Rightarrow>
          (let school_name' = (if event_type \<noteq> ''grg'' then school_name_input form else []);
               event_name' = (if event_type \<noteq> ''grg'' then event_name_input form
                              else ''GRG Session'');
               grade' = (if event_type \<noteq> ''grg'' then grade_input form else []);
               num_students' = (if event_type \<noteq> ''grg'' then num_students_input form else 0)
           in case selectbox time_options (start_pick form) of
                None \<Rightarrow> Inl TypeError
              | Some start_time' \<Rightarrow>
                  (let end_times_filtered = filter (\<lambda>t. t > start_time') time_options;
                       end_time' = selectbox end_times_filtered (end_pick form)
                   in if add_clicked form then
                        (if strip event_name' = [] then Inr (EventNameRequired, events_df)
                         else
                           (let prefix = (case map_of type_prefix_map event_type of
                                            None \<Rightarrow> ''EVT'' | Some p \<Rightarrow> p)
                            in case generate_event_id events_df prefix of
                                 Inl e \<Rightarrow> Inl e
                               | Inr new_event_id \<Rightarrow>
                                   Inr (EventAdded new_event_id,
                                        events_df @
                                        [\<lparr>event_id = Some new_event_id,
                                          etype = Some event_type,
                                          school_name = Some school_name',
                                          event_name = Some event_name',
                                          grade = Some grade',
                                          num_students = Some num_students',
                                          date = Some (date_input form),
                                          start_time = Some start_time',
                                          end_time = end_time',
                                          required = Some (required_input form)\<rparr>])))
                      else Inr (NotSubmitted, events_df))))"

text \<open>
  A sequence of calls: the identifiers returned, in order, and the final table. A call
  that raises leaves the table as it was.
\<close>

fun add_events :: "event list \<Rightarrow> add_event_form list \<Rightarrow> string list \<times> event list" where
  "add_events events_df [] = ([], events_df)"
| "add_events events_df (form # forms) =
     (case show_add_event events_df form of
        Inl e \<Rightarrow> add_events events_df forms
      | Inr (EventAdded new_event_id, events_df') \<Rightarrow>
          (case add_events events_df' forms of
             (ids, final) \<Rightarrow> (new_event_id # ids, final))
      | Inr (_, events_df') \<Rightarrow> add_events events_df' forms)"

text \<open>The invariant of an event the specification states: a start before an end.\<close>

definition starts_before_end :: "'a event_scheme \<Rightarrow> bool" where
  "starts_before_end e =
     (case (start_time e, end_time e) of (Some s, Some t) \<Rightarrow> s < t | _ \<Rightarrow> False)"

section \<open>Adding an assignment\<close>

datatype add_assignment_result =
  NoEvents | NoVolunteers | NoSelection | NotClicked | AlreadyAssigned | Assigned string string

text \<open>
  The body of \<^verbatim>\<open>if st.button("Assign Volunteer")\<close> (lines 271 to 283): the duplicate
  check and the insert.
\<close>

definition assign_volunteer ::
  "assignment list \<Rightarrow> string \<Rightarrow> string \<Rightarrow> add_assignment_result \<times> assignment list" where
  "assign_volunteer assignments_df selected_event_id selected_volunteer =
     (if filter (\<lambda>a. event_id a = Some selected_event_id \<and>
                       assignment.volunteer a = Some selected_volunteer) assignments_df \<noteq> []
      then (AlreadyAssigned, assignments_df)
      else (Assigned selected_volunteer selected_event_id,
            assignments_df @
            [\<lparr>event_id = Some selected_event_id,
              assignment.volunteer = Some selected_volunteer\<rparr>]))"

text \<open>
  \<^verbatim>\<open>show_add_assignment\<close>: the two guards, the select box over the display strings, the
  dictionary from display string to identifier (the last event with a display string
  wins), the row of the selected event (\<^verbatim>\<open>.iloc[0]\<close> raises IndexError when no row has
  the identifier), the list of the booked volunteers (\<^verbatim>\<open>", ".join\<close> raises TypeError on
  a missing name), the volunteer select box and the button. The result is what the page
  reports, or the exception it raises, together with \<^verbatim>\<open>assignments_df\<close> after the run.
\<close>

definition display :: "'a event_scheme \<Rightarrow> string" where
  "display row = fmt (event_id row) @ '' - '' @ fmt (event_name row) @ '' - '' @ fmt (date row)"

definition show_add_assignment ::
  "event list \<Rightarrow> volunteer_row list \<Rightarrow> assignment list \<Rightarrow> nat \<Rightarrow> nat \<Rightarrow> bool \<Rightarrow>
   (error + add_assignment_result) \<times> assignment list" where
  "show_add_assignment events_df volunteers_df assignments_df event_pick volunteer_pick clicked =
     (if events_df = [] then (Inr NoEvents, assignments_df)
      else if volunteers_df = [] then (Inr NoVolunteers, assignments_df)
      else
        (let display_to_id = map_of (rev (map (\<lambda>row. (display row, event_id row)) events_df))
         in case selectbox (map display events_df) event_pick of
              None \<Rightarrow> (Inr NoSelection, assignments_df)
            | Some selected_display \<Rightarrow>
                if selected_display = [] then (Inr NoSelection, assignments_df)
                else
                  (case display_to_id selected_display of
                     None \<Rightarrow> (Inl KeyError, assignments_df)
                   | Some None \<Rightarrow> (Inl IndexError, assignments_df)
                   | Some (Some selected_event_id) \<Rightarrow>
                       if filter (\<lambda>row. event_id row = Some selected_event_id) events_df = []
                       then (Inl IndexError, assignments_df)
                       else if list_ex (\<lambda>a. assignment.volunteer a = None)
                                 (filter (\<lambda>a. event_id a = Some selected_event_id)
                                    assignments_df)
                       then (Inl TypeError, assignments_df)
                       else
                         (case selectbox (map full_name volunteers_df) volunteer_pick of
                            None \<Rightarrow> (Inl TypeError, assignments_df)
                          | Some selected_volunteer \<Rightarrow>
                              if clicked
                              then (case assign_volunteer assignments_df selected_event_id
                                           selected_volunteer of
                                      (r, assignments_df') \<Rightarrow> (Inr r, assignments_df'))
                              else (Inr NotClicked, assignments_df)))))"

section \<open>Required against assigned\<close>

text \<open>
  Lines 336 to 341 of \<^verbatim>\<open>show_event_summary\<close>. \<^verbatim>\<open>groupby("event_id").size().to_dict()\<close>
  has a key for every identifier that occurs in the assignments; an event without a key
  gets 0 from \<^verbatim>\<open>fillna(0)\<close>. \<^verbatim>\<open>astype(int)\<close> raises when a cell of \<^verbatim>\<open>required\<close> is
  missing. Both columns of line 340 are 64-bit integers: the subtraction wraps around,
  and the comparison of line 341 reads the result as a signed number.
\<close>

record summary = event +
  assigned :: int64
  still_required :: int64

definition assigned_counts :: "assignment list \<Rightarrow> string \<rightharpoonup> int64" where
  "assigned_counts assignments_df eid =
     (let rows = filter (\<lambda>a. event_id a = Some eid) assignments_df
      in if rows = [] then None else Some (word_of_nat (length rows)))"

definition reconcile_row :: "assignment list \<Rightarrow> event \<Rightarrow> int64 \<Rightarrow> summary" where
  "reconcile_row assignments_df e required_int =
     (let assigned' = (case event_id e of
                         None \<Rightarrow> 0
                       | Some eid \<Rightarrow>
                           (case assigned_counts assignments_df eid of None \<Rightarrow> 0 | Some n \<Rightarrow> n));
          x = required_int - assigned'
      in event.extend e \<lparr>assigned = assigned', still_required = (if 0 <s x then x else 0)\<rparr>)"

definition reconcile :: "event list \<Rightarrow> assignment list \<Rightarrow> error + summary list" where
  "reconcile filtered_events assignments_df =
     (if list_ex (\<lambda>e. required e = None) filtered_events then Inl ValueError
      else Inr (List.map_filter
                  (\<lambda>e. map_option (reconcile_row assignments_df e) (required e))
                  filtered_events))"

text \<open>
  Lines 364 to 388 of \<^verbatim>\<open>show_event_details\<close>, for the identifier cut from the selected
  option: the first event with that identifier, the number of its assignments and what
  is still required. \<^verbatim>\<open>int(event["required"])\<close> raises on a missing cell and otherwise
  gives a Python integer, so this subtraction does not wrap.
  \<^verbatim>\<open>", ".join(assigned_vols)\<close>, which runs before the two numbers are shown, raises on
  a missing volunteer name.
\<close>

datatype details = EventNotFound | Details int int

definition show_event_details :: "event list \<Rightarrow> assignment list \<Rightarrow> string \<Rightarrow> error + details" where
  "show_event_details events_df assignments_df eid =
     (case filter (\<lambda>e. event_id e = Some eid) events_df of
        [] \<Rightarrow> Inr EventNotFound
      | event' # _ \<Rightarrow>
          (let assigned_vols = map assignment.volunteer
                                 (filter (\<lambda>a. event_id a = Some eid) assignments_df);
               assigned_count = int (length assigned_vols)
           in case required event' of
                None \<Rightarrow> Inl ValueError
              | Some r \<Rightarrow>
                  (let required_count = sint r
                   in if list_ex (\<lambda>v. v = None) assigned_vols then Inl TypeError
                      else Inr (Details assigned_count
                                  (max (required_count - assigned_count) 0)))))"

text \<open>
  When an assignment counts for an event: their identifiers are equal. A missing
  identifier (NaN) equals nothing, not even another missing one.
\<close>

definition same_event :: "'a keyed_scheme \<Rightarrow> 'b keyed_scheme \<Rightarrow> bool" where
  "same_event a e = (case event_id e of None \<Rightarrow> False | Some i \<Rightarrow> event_id a = Some i)"

section \<open>The conflict checker\<close>

text \<open>
  A conflict message is the f-string of line 151 or of line 158; the model keeps the
  values the text is built from. An overlap names the volunteer, the date and start time
  of the earlier entry, the start time of the later one and both types; an overbooking
  names the event, the date and the number of volunteers.
\<close>

datatype conflict =
  Overlap string "string option" "string option" "string option" "string option" "string option"
| Overbooked string string nat

text \<open>
  Lines 123 to 133: the volunteer filter, the type filter and the date range. A
  comparison with NaT is false, so the date range drops the rows without a start.
\<close>

definition apply_filters ::
  "entry list \<Rightarrow> string \<Rightarrow> string list \<Rightarrow> int \<Rightarrow> int \<Rightarrow> entry list" where
  "apply_filters merged_df selected_volunteer selected_type start_date end_date =
     (let by_volunteer = (if selected_volunteer \<noteq> ''All''
                          then filter (\<lambda>r. volunteer r = Some selected_volunteer) merged_df
                          else merged_df);
          by_type = (if selected_type \<noteq> []
                     then filter (\<lambda>r. case etype r of None \<Rightarrow> False
                                      | Some t \<Rightarrow> t \<in> set selected_type) by_volunteer
                     else [])
      in filter (\<lambda>r. case datetime_start r of None \<Rightarrow> False
                    | Some t \<Rightarrow> start_date \<le> dt_date t \<and> dt_date t \<le> end_date) by_type)"

text \<open>
  \<^verbatim>\<open>sort_values(by="datetime_start")\<close> puts NaT last. Rows with equal starts keep their
  order here; pandas leaves their order to the sorting algorithm.
\<close>

definition start_key :: "'a entry_scheme \<Rightarrow> nat \<times> timestamp" where
  "start_key r = (case datetime_start r of None \<Rightarrow> (1, 0) | Some t \<Rightarrow> (0, t))"

definition later :: "timestamp option \<Rightarrow> timestamp option \<Rightarrow> bool" where
  "later a b = (case (a, b) of (Some x, Some y) \<Rightarrow> x > y | _ \<Rightarrow> False)"

definition overlap_message :: "string \<Rightarrow> 'a entry_scheme \<Rightarrow> 'a entry_scheme \<Rightarrow> conflict" where
  "overlap_message name prev curr' =
     Overlap name (date prev) (start_time prev) (start_time curr') (etype prev) (etype curr')"

text \<open>The loop \<^verbatim>\<open>for i in range(1, len(sub))\<close>, from position \<open>i\<close> on.\<close>

function overlap_loop :: "string \<Rightarrow> 'a entry_scheme list \<Rightarrow> nat \<Rightarrow> conflict list" where
  "overlap_loop name sub i =
     (if i < length sub then
        (let prev = sub ! (i - 1); curr' = sub ! i
         in (if later (datetime_end prev) (datetime_start curr')
             then [overlap_message name prev curr'] else []) @
            overlap_loop name sub (i + 1))
      else [])"
  by pat_completeness auto
termination
  by (relation "measure (\<lambda>(name, sub, i). length sub - i)") auto

declare overlap_loop.simps [simp del]

definition sub_of :: "'a entry_scheme list \<Rightarrow> string \<Rightarrow> 'a entry_scheme list" where
  "sub_of filtered_df name =
     sort_key start_key (filter (\<lambda>r. volunteer r = Some name) filtered_df)"

text \<open>
  Lines 144 to 151. \<^verbatim>\<open>unique()\<close> also lists NaN when a volunteer cell is missing; no row
  equals NaN, so its \<^verbatim>\<open>sub\<close> is empty and the loop does not run.
\<close>

definition overlap_conflicts :: "'a entry_scheme list \<Rightarrow> conflict list" where
  "overlap_conflicts filtered_df =
     concat (map (\<lambda>name. case name of
                            None \<Rightarrow> []
                          | Some n \<Rightarrow> overlap_loop n (sub_of filtered_df n) 1)
                 (unique (map volunteer filtered_df)))"

text \<open>
  Lines 153 to 158. \<^verbatim>\<open>groupby(["event_id", "date"])\<close> drops the rows with a missing key
  and lists the groups in the order of their keys; \<^verbatim>\<open>nunique()\<close> does not count a missing
  volunteer.
\<close>

definition grg_df :: "'a entry_scheme list \<Rightarrow> 'a entry_scheme list" where
  "grg_df filtered_df =
     filter (\<lambda>r. case etype r of None \<Rightarrow> False | Some t \<Rightarrow> lower t = ''grg'') filtered_df"

definition group_key :: "'a entry_scheme \<Rightarrow> (string \<times> string) option" where
  "group_key r =
     (case (event_id r, date r) of (Some e, Some d) \<Rightarrow> Some (e, d) | _ \<Rightarrow> None)"

definition volunteer_count :: "'a entry_scheme list \<Rightarrow> string \<times> string \<Rightarrow> nat" where
  "volunteer_count rows key =
     length (unique (List.map_filter volunteer (filter (\<lambda>r. group_key r = Some key) rows)))"

definition grg_counts :: "'a entry_scheme list \<Rightarrow> ((string \<times> string) \<times> nat) list" where
  "grg_counts rows =
     map (\<lambda>key. (key, volunteer_count rows key)) (sort (remdups (List.map_filter group_key rows)))"

definition capacity_conflicts :: "'a entry_scheme list \<Rightarrow> conflict list" where
  "capacity_conflicts filtered_df =
     map (\<lambda>((e, d), n). Overbooked e d n)
         (filter (\<lambda>(key, n). n > 2) (grg_counts (grg_df filtered_df)))"

definition find_conflicts :: "'a entry_scheme list \<Rightarrow> conflict list" where
  "find_conflicts filtered_df = overlap_conflicts filtered_df @ capacity_conflicts filtered_df"

text \<open>
  The conflicts \<^verbatim>\<open>show_dashboard\<close> reports for the filters chosen in the sidebar; with a
  start date after the end date it returns before the checker runs.
\<close>

definition show_dashboard ::
  "entry list \<Rightarrow> string \<Rightarrow> string list \<Rightarrow> int \<Rightarrow> int \<Rightarrow> conflict list option" where
  "show_dashboard merged_df selected_volunteer selected_type start_date end_date =
     (if start_date > end_date then None
      else Some (find_conflicts
                   (apply_filters merged_df selected_volunteer selected_type start_date end_date)))"

text \<open>
  Two notions of the specification, for stating what the checker finds: an entry has an
  interval when both ends parsed, and two entries overlap when each starts before the
  other ends.
\<close>

definition has_interval :: "'a entry_scheme \<Rightarrow> bool" where
  "has_interval r = (datetime_start r \<noteq> None \<and> datetime_end r \<noteq> None)"

definition overlapping :: "'a entry_scheme \<Rightarrow> 'a entry_scheme \<Rightarrow> bool" where
  "overlapping a b =
     (later (datetime_end b) (datetime_start a) \<and> later (datetime_end a) (datetime_start b))"


definition ends_after_start :: "'a entry_scheme \<Rightarrow> 'a entry_scheme \<Rightarrow> bool" where
  "ends_after_start prev curr' =
     (case datetime_end prev of
        None \<Rightarrow> False
      | Some e \<Rightarrow> (case datetime_start curr' of None \<Rightarrow> False | Some s \<Rightarrow> s < e))"

definition adjacent_overlaps :: "string \<Rightarrow> 'a entry_scheme list \<Rightarrow> conflict list" where
  "adjacent_overlaps name sub =
     [Overlap name (date prev) (start_time prev) (start_time curr') (etype prev) (etype curr').
        (prev, curr') \<leftarrow> zip sub (tl sub), ends_after_start prev curr']"

definition is_grg :: "'a entry_scheme \<Rightarrow> bool" where
  "is_grg r = (case etype r of None \<Rightarrow> False | Some t \<Rightarrow> lower t = ''grg'')"

definition group_volunteers :: "'a entry_scheme list \<Rightarrow> string \<Rightarrow> string \<Rightarrow> string set" where
  "group_volunteers rows e d =
     set (List.map_filter volunteer
            (filter (\<lambda>r. is_grg r \<and> event_id r = Some e \<and> date r = Some d) rows))"

definition overbooked_for :: "string \<Rightarrow> string \<Rightarrow> conflict \<Rightarrow> bool" where
  "overbooked_for e d m =
     (case m of Overbooked e' d' n \<Rightarrow> e' = e \<and> d' = d | Overlap _ _ _ _ _ _ \<Rightarrow> False)"

section \<open>Example tables\<close>

text \<open>Rows and forms for the concrete cases below.\<close>

definition booking ::
  "string \<Rightarrow> string \<Rightarrow> string \<Rightarrow> string \<Rightarrow> string \<Rightarrow>
   timestamp option \<Rightarrow> timestamp option \<Rightarrow> entry" where
  "booking name eid ty s e ds de =
     \<lparr>event_id = Some eid, etype = Some ty, school_name = None, event_name = Some ''Session'',
      grade = None, num_students = Some 0, date = Some ''2025-06-02'', start_time = Some s,
      end_time = Some e, required = Some 2, volunteer = Some name,
      datetime_start = ds, datetime_end = de\<rparr>"

text \<open>The times of 2 June 2025 in nanoseconds; that day is number 20241.\<close>

definition t1000 :: timestamp where "t1000 = 1748858400000000000"
definition t1030 :: timestamp where "t1030 = 1748860200000000000"
definition t1100 :: timestamp where "t1100 = 1748862000000000000"
definition t1130 :: timestamp where "t1130 = 1748863800000000000"
definition t1200 :: timestamp where "t1200 = 1748865600000000000"
definition t1300 :: timestamp where "t1300 = 1748869200000000000"

definition two_bookings :: "entry list" where
  "two_bookings =
     [booking ''Bob'' ''COR001'' ''course'' ''10:00'' ''11:00'' (Some t1000) (Some t1100),
      booking ''Bob'' ''GUI001'' ''guiding'' ''10:30'' ''11:30'' (Some t1030) (Some t1130)]"

text \<open>Two bookings of Bob that touch: the first ends when the second starts.\<close>

definition touching_bookings :: "entry list" where
  "touching_bookings =
     [booking ''Bob'' ''COR001'' ''course'' ''10:00'' ''11:00'' (Some t1000) (Some t1100),
      booking ''Bob'' ''GUI001'' ''guiding'' ''11:00'' ''12:00'' (Some t1100) (Some t1200)]"

definition long_booking :: entry where
  "long_booking = booking ''Bob'' ''COR001'' ''course'' ''10:00'' ''13:00'' (Some t1000) (Some t1300)"

definition short_booking :: entry where
  "short_booking = booking ''Bob'' ''GUI001'' ''guiding'' ''10:30'' ''11:00'' (Some t1030) (Some t1100)"

definition late_booking :: entry where
  "late_booking = booking ''Bob'' ''GRG001'' ''grg'' ''11:30'' ''12:00'' (Some t1130) (Some t1200)"

definition three_grg :: "entry list" where
  "three_grg =
     [booking ''Ann'' ''GRG001'' ''GRG'' ''10:00'' ''11:00'' (Some t1000) (Some t1100),
      booking ''Bob'' ''GRG001'' ''grg'' ''10:00'' ''11:00'' (Some t1000) (Some t1100),
      booking ''Cy'' ''GRG001'' ''Grg'' ''10:00'' ''11:00'' (Some t1000) (Some t1100),
      booking ''Ann'' ''GRG002'' ''grg'' ''12:00'' ''13:00'' (Some t1200) (Some t1300),
      booking ''Bob'' ''GRG002'' ''grg'' ''12:00'' ''13:00'' (Some t1200) (Some t1300)]"

text \<open>Three GRG bookings whose end time, 25:00, does not parse.\<close>

definition no_end :: "entry list" where
  "no_end =
     [booking ''Ann'' ''GRG001'' ''grg'' ''10:00'' ''25:00'' (Some t1000) None,
      booking ''Bob'' ''GRG001'' ''grg'' ''10:00'' ''25:00'' (Some t1000) None,
      booking ''Cy'' ''GRG001'' ''grg'' ''10:00'' ''25:00'' (Some t1000) None]"

definition ann_lee :: volunteer_row where
  "ann_lee = \<lparr>first_name = Some ''Ann'', last_name = Some ''Lee'', alias_col = None\<rparr>"

definition bea_kay :: "string \<Rightarrow> volunteer_row" where
  "bea_kay a = \<lparr>first_name = Some ''Bea'', last_name = Some ''Kay'', alias_col = Some a\<rparr>"

definition course_event :: "string \<Rightarrow> int64 \<Rightarrow> event" where
  "course_event i r =
     \<lparr>event_id = Some i, etype = Some ''course'', school_name = Some ''Hill School'',
      event_name = Some ''Robots'', grade = Some ''5'', num_students = Some 20,
      date = Some ''2025-06-02'', start_time = Some ''09:00'', end_time = Some ''10:00'',
      required = Some r\<rparr>"

definition assigned_to :: "string \<Rightarrow> string \<Rightarrow> assignment" where
  "assigned_to i v = \<lparr>event_id = Some i, assignment.volunteer = Some v\<rparr>"



definition five_assigned :: "assignment list" where
  "five_assigned =
     map (assigned_to ''COR001'') [''Ann Lee'', ''Bea Kay'', ''Cy Orr'', ''Di Poe'', ''Ed Roe'']"

definition grg_event :: "string \<Rightarrow> event" where
  "grg_event i =
     \<lparr>event_id = Some i, etype = Some ''grg'', school_name = None,
      event_name = Some ''GRG Session'', grade = None, num_students = Some 0,
      date = Some ''2025-06-02'', start_time = Some ''09:00'', end_time = Some ''10:00'',
      required = Some 2\<rparr>"

definition grg_form :: "nat \<Rightarrow> nat \<Rightarrow> add_event_form" where
  "grg_form s e =
     \<lparr>type_pick = 1, school_name_input = [], event_name_input = [], grade_input = [],
      num_students_input = 0, date_input = ''2025-06-03'', start_pick = s, end_pick = e,
      required_input = 2, add_clicked = True\<rparr>"

section \<open>Decimal strings\<close>

lemma isdecimal_digit_char: "d < 10 \<Longrightarrow> isdecimal_char (digit_char d)"
  by (simp add: isdecimal_char_def digit_char_def less_eq_char_def)

lemma digit_val_digit_char: "d < 10 \<Longrightarrow> digit_val (digit_char d) = d"
  by (simp add: digit_val_def digit_char_def)

lemma str_nat_nonempty: "str_nat n \<noteq> []"
  by (subst str_nat.simps) simp

lemma str_nat_decimal: "list_all isdecimal_char (str_nat n)"
proof (induction n rule: str_nat.induct)
  case (1 n)
  show ?case
  proof (cases "n < 10")
    case True
    then show ?thesis by (subst str_nat.simps) (simp add: isdecimal_digit_char)
  next
    case False
    with 1 show ?thesis by (subst str_nat.simps) (simp add: isdecimal_digit_char)
  qed
qed

text \<open>Reading the digits of \<open>str_nat n\<close> gives \<open>n\<close> back, also behind padding zeros.\<close>

lemma read_str_nat: "foldl (\<lambda>acc c. 10 * acc + digit_val c) 0 (str_nat n) = n"
proof (induction n rule: str_nat.induct)
  case (1 n)
  show ?case
  proof (cases "n < 10")
    case True
    then show ?thesis by (subst str_nat.simps) (simp add: digit_val_digit_char)
  next
    case False
    with 1 show ?thesis by (subst str_nat.simps) (simp add: digit_val_digit_char)
  qed
qed

lemma read_zeros:
  "foldl (\<lambda>acc c. 10 * acc + digit_val c) 0 (replicate k (CHR ''0'') @ s) =
   foldl (\<lambda>acc c. 10 * acc + digit_val c) 0 s"
  by (induction k) (simp_all add: digit_val_def)

lemma format_03d_decimal: "list_all isdecimal_char (format_03d n)"
  using str_nat_decimal[of n] by (auto simp: format_03d_def list_all_iff isdecimal_char_def)

lemma format_03d_nonempty: "format_03d n \<noteq> []"
  by (simp add: format_03d_def str_nat_nonempty)

lemma read_format_03d: "foldl (\<lambda>acc c. 10 * acc + digit_val c) 0 (format_03d n) = n"
  unfolding format_03d_def by (simp only: read_zeros read_str_nat)

lemma py_int_format_03d: "py_int (format_03d n) = Inr n"
  unfolding py_int_def using format_03d_decimal[of n] format_03d_nonempty[of n]
  by (simp add: read_format_03d)

lemma isdigit_format_03d: "isdigit (format_03d n)"
  using format_03d_decimal[of n] format_03d_nonempty[of n]
  by (auto simp: isdigit_def isdigit_char_def list_all_iff)

lemma int_all_member:
  "int_all xs = Inr ns \<Longrightarrow> s \<in> set xs \<Longrightarrow> \<exists>n \<in> set ns. py_int s = Inr n"
  by (induction xs arbitrary: ns) (auto split: sum.splits)

lemma int_all_decimal:
  "list_all (\<lambda>s. s \<noteq> [] \<and> list_all isdecimal_char s) xs \<Longrightarrow>
   int_all xs = Inr (map (\<lambda>s. foldl (\<lambda>acc c. 10 * acc + digit_val c) 0 s) xs)"
  by (induction xs) (auto simp: py_int_def)

section \<open>Properties of the identifier generator\<close>

lemma existing_ids_mem:
  "i \<in> set (List.map_filter event_id events) \<longleftrightarrow> Some i \<in> event_id ` set events"
proof
  assume "i \<in> set (List.map_filter event_id events)"
  then obtain x where "x \<in> set events" "event_id x = Some i"
    by (auto simp: map_filter_def)
  then show "Some i \<in> event_id ` set events" by (metis imageI)
next
  assume "Some i \<in> event_id ` set events"
  then obtain x where x: "x \<in> set events" "event_id x = Some i" by (auto simp: image_iff)
  then have "(\<exists>y. event_id x = Some y) \<and> i = the (event_id x)" by simp
  with x(1) show "i \<in> set (List.map_filter event_id events)"
    by (auto simp: map_filter_def image_iff intro!: bexI[of _ x])
qed

lemma generate_event_id_shape:
  "generate_event_id events prefix = Inr new \<Longrightarrow> \<exists>n. new = prefix @ format_03d n"
  by (auto simp: generate_event_id_def Let_def split: if_splits sum.splits)

text \<open>
  A returned identifier is not in the table: were it there, its suffix would be among
  the numbers the maximum is taken of.
\<close>

lemma generate_event_id_fresh:
  assumes "generate_event_id events prefix = Inr new"
  shows "Some new \<notin> event_id ` set events"
proof
  assume mem: "Some new \<in> event_id ` set events"
  define filtered where
    "filtered = filter (\<lambda>eid. startswith eid prefix) (List.map_filter event_id events)"
  from generate_event_id_shape[OF assms] obtain n where new: "new = prefix @ format_03d n" ..
  have "startswith new prefix" by (simp add: new startswith_def)
  with mem have fl: "new \<in> set filtered" by (simp add: filtered_def existing_ids_mem)
  then have ne: "filtered \<noteq> []" by auto
  have "drop (length prefix) new \<in> (\<lambda>eid. drop (length prefix) eid) ` set filtered"
    using fl by (rule imageI)
  then have suf: "format_03d n \<in> set (suffixes filtered prefix)"
    by (simp add: suffixes_def new isdigit_format_03d)
  from assms ne obtain nums where ia: "int_all (suffixes filtered prefix) = Inr nums"
    and res: "new = prefix @ format_03d (if nums \<noteq> [] then Max (set nums) + 1 else 1)"
    by (auto simp: generate_event_id_def Let_def filtered_def split: if_splits sum.splits)
  from int_all_member[OF ia suf] have nin: "n \<in> set nums" by (auto simp: py_int_format_03d)
  then have "nums \<noteq> []" by auto
  with res new have "format_03d n = format_03d (Max (set nums) + 1)" by simp
  then have "py_int (format_03d n) = py_int (format_03d (Max (set nums) + 1))" by simp
  then have "n = Max (set nums) + 1" by (simp add: py_int_format_03d)
  moreover have "n \<le> Max (set nums)" using nin by simp
  ultimately show False by simp
qed

text \<open>
  When every suffix that passes \<^verbatim>\<open>isdigit\<close> consists of decimal digits, the generator
  returns the prefix with the maximum plus one, or with 001 when there is no such suffix.
\<close>

lemma generate_event_id_decimal:
  assumes "list_all (list_all isdecimal_char)
             (suffixes (filter (\<lambda>eid. startswith eid prefix)
                          (List.map_filter event_id events)) prefix)"
  shows "generate_event_id events prefix =
           Inr (prefix @ format_03d
             (let nums = map (foldl (\<lambda>acc c. 10 * acc + digit_val c) 0)
                           (suffixes (filter (\<lambda>eid. startswith eid prefix)
                                        (List.map_filter event_id events)) prefix)
              in if nums \<noteq> [] then Max (set nums) + 1 else 1))"
proof -
  define sf where
    "sf = suffixes (filter (\<lambda>eid. startswith eid prefix) (List.map_filter event_id events)) prefix"
  have "list_all (\<lambda>s. s \<noteq> [] \<and> list_all isdecimal_char s) sf"
    using assms by (auto simp: sf_def suffixes_def list_all_iff isdigit_def)
  from int_all_decimal[OF this]
  have ia: "int_all sf = Inr (map (foldl (\<lambda>acc c. 10 * acc + digit_val c) 0) sf)" .
  have empty:
    "filter (\<lambda>eid. startswith eid prefix) (List.map_filter event_id events) = [] \<Longrightarrow> sf = []"
    by (simp add: sf_def suffixes_def)
  show ?thesis
    using ia empty unfolding generate_event_id_def Let_def sf_def[symmetric]
    by (auto simp: sf_def[symmetric])
qed

lemma generate_event_id_examples:
  "generate_event_id [\<lparr>event_id = Some ''GRG001''\<rparr>, \<lparr>event_id = Some ''GRG003''\<rparr>] ''GRG''
     = Inr ''GRG004''"
  "generate_event_id [\<lparr>event_id = Some ''GRG001''\<rparr>, \<lparr>event_id = Some ''GRGx''\<rparr>,
                      \<lparr>event_id = None\<rparr>, \<lparr>event_id = Some ''COR009''\<rparr>] ''GRG''
     = Inr ''GRG002''"
  "generate_event_id ([] :: keyed list) ''GUI'' = Inr ''GUI001''"
  by code_simp+

text \<open>
  C2. The generator is claimed to return, for every table and prefix, the prefix with the
  maximum numeric suffix plus one (or 001), ignoring every other suffix without error.
  The code raises instead when a suffix passes \<^verbatim>\<open>isdigit\<close> without being decimal: for
  the single identifier GRG followed by a superscript two, \<^verbatim>\<open>int\<close> raises ValueError.
\<close>

theorem generate_event_id_superscript_raises:
  "generate_event_id [\<lparr>event_id = Some (''GRG'' @ [CHR 0xB2])\<rparr>] ''GRG'' = Inl ValueError"
  by code_simp

section \<open>Properties of adding events\<close>

lemma selectbox_mem: "selectbox xs i = Some x \<Longrightarrow> x \<in> set xs"
  by (auto simp: selectbox_def split: if_splits simp: hd_conv_nth[symmetric])

lemma selectbox_None: "selectbox xs i = None \<longleftrightarrow> xs = []"
  by (auto simp: selectbox_def)

lemma show_add_event_cases:
  assumes "show_add_event events_df form = Inr (r, events_df')"
  shows "(\<exists>i e. r = EventAdded i \<and> events_df' = events_df @ [e] \<and> event_id e = Some i \<and>
            Some i \<notin> event_id ` set events_df) \<or>
         ((\<forall>i. r \<noteq> EventAdded i) \<and> events_df' = events_df)"
  using assms unfolding show_add_event_def Let_def
  by (auto split: list.splits option.splits if_splits sum.splits dest: generate_event_id_fresh)

lemma add_events_ids:
  "distinct (fst (add_events events_df forms)) \<and>
   event_id ` set (snd (add_events events_df forms)) =
     event_id ` set events_df \<union> Some ` set (fst (add_events events_df forms)) \<and>
   Some ` set (fst (add_events events_df forms)) \<inter> event_id ` set events_df = {}"
proof (induction forms arbitrary: events_df)
  case Nil
  show ?case by simp
next
  case (Cons form forms)
  show ?case
  proof (cases "show_add_event events_df form")
    case (Inl e)
    with Cons.IH[of events_df] show ?thesis by simp
  next
    case (Inr p)
    obtain r events_df' where p: "p = (r, events_df')" by (cases p)
    from show_add_event_cases[OF Inr[unfolded p]]
    consider (added) i e where "r = EventAdded i" "events_df' = events_df @ [e]"
        "event_id e = Some i" "Some i \<notin> event_id ` set events_df"
      | (same) "\<forall>i. r \<noteq> EventAdded i" "events_df' = events_df"
      by blast
    then show ?thesis
    proof cases
      case added
      obtain ids final where rec: "add_events events_df' forms = (ids, final)"
        by (cases "add_events events_df' forms")
      have step: "add_events events_df (form # forms) = (i # ids, final)"
        using Inr p added(1) rec by simp
      have ids': "event_id ` set events_df' = insert (Some i) (event_id ` set events_df)"
        using added(2,3) by auto
      from Cons.IH[of events_df'] rec
      have d: "distinct ids"
        and f: "event_id ` set final = event_id ` set events_df' \<union> Some ` set ids"
        and n: "Some ` set ids \<inter> event_id ` set events_df' = {}"
        by simp_all
      from n ids' have "i \<notin> set ids" by auto
      moreover from n ids' have "Some ` set ids \<inter> event_id ` set events_df = {}" by auto
      ultimately show ?thesis
        using d f ids' added(4) unfolding step by auto
    next
      case same
      have step: "add_events events_df (form # forms) = add_events events_df forms"
        using Inr p same by (cases r) simp_all
      show ?thesis unfolding step by (rule Cons.IH)
    qed
  qed
qed

lemma add_events_gap_example:
  "fst (add_events [grg_event ''GRG001'', grg_event ''GRG003''] [grg_form 0 0, grg_form 2 1])
     = [''GRG004'', ''GRG005'']"
  by code_simp

text \<open>
  C1. For every table of events and every sequence of \<^verbatim>\<open>add_event\<close> calls, the
  identifiers returned are pairwise distinct and none of them is an identifier the table
  already held, whatever gaps the numbering of the table has.
\<close>

theorem add_events_ids_never_reused:
  "distinct (fst (add_events events_df forms)) \<and>
   Some ` set (fst (add_events events_df forms)) \<inter> event_id ` set events_df = {}"
  using add_events_ids[of events_df forms] by blast

theorem add_events_ids_never_reused_witness:
  "fst (add_events [grg_event ''GRG001'', grg_event ''GRG003''] [grg_form 0 0, grg_form 2 1])
     = [''GRG004'', ''GRG005''] \<and>
   distinct (fst (add_events [grg_event ''GRG001'', grg_event ''GRG003'']
                    [grg_form 0 0, grg_form 2 1])) \<and>
   Some ` set (fst (add_events [grg_event ''GRG001'', grg_event ''GRG003'']
                      [grg_form 0 0, grg_form 2 1])) \<inter>
     event_id ` set [grg_event ''GRG001'', grg_event ''GRG003''] = {}"
  using add_events_ids_never_reused
          [of "[grg_event ''GRG001'', grg_event ''GRG003'']" "[grg_form 0 0, grg_form 2 1]"]
        add_events_gap_example
  by blast

lemma time_options_list:
  "time_options =
     [''08:00'', ''08:30'', ''09:00'', ''09:30'', ''10:00'', ''10:30'', ''11:00'', ''11:30'',
      ''12:00'', ''12:30'', ''13:00'', ''13:30'', ''14:00'', ''14:30'', ''15:00'', ''15:30'',
      ''16:00'', ''16:30'', ''17:00'']"
  by code_simp

lemma strip_nonempty: "strip s \<noteq> [] \<Longrightarrow> s \<noteq> []"
  by (auto simp: strip_def)

lemma show_add_event_shape:
  assumes "show_add_event events_df form = Inr (EventAdded i, events_df')"
  shows "\<exists>e n s. events_df' = events_df @ [e] \<and> event_name e = Some n \<and> strip n \<noteq> [] \<and>
           start_time e = Some s \<and> s \<in> set time_options \<and>
           end_time e = selectbox (filter (\<lambda>t. t > s) time_options) (end_pick form)"
  using assms unfolding show_add_event_def Let_def
  by (auto split: list.splits option.splits if_splits sum.splits dest!: selectbox_mem)

lemma last_start:
  "filter (\<lambda>t. s < t) time_options = [] \<Longrightarrow> s \<in> set time_options \<Longrightarrow> s = ''17:00''"
  unfolding time_options_list by (auto split: if_splits)

text \<open>
  What holds of every event \<^verbatim>\<open>show_add_event\<close> appends: its name is not empty, and its
  start is before its end unless the start is 17:00, the last option, for which the
  select box of the end times is empty and returns None.
\<close>

lemma show_add_event_appended:
  assumes "show_add_event events_df form = Inr (EventAdded i, events_df')"
  shows "\<exists>e n s. events_df' = events_df @ [e] \<and> event_name e = Some n \<and> n \<noteq> [] \<and>
           start_time e = Some s \<and>
           (starts_before_end e \<or> (end_time e = None \<and> s = ''17:00''))"
proof -
  from show_add_event_shape[OF assms] obtain e n s where
    e: "events_df' = events_df @ [e]" "event_name e = Some n" "strip n \<noteq> []"
       "start_time e = Some s" "s \<in> set time_options"
       "end_time e = selectbox (filter (\<lambda>t. t > s) time_options) (end_pick form)"
    by blast
  have "starts_before_end e \<or> (end_time e = None \<and> s = ''17:00'')"
  proof (cases "end_time e")
    case None
    with e(6) have "selectbox (filter (\<lambda>t. s < t) time_options) (end_pick form) = None"
      by simp
    then have "filter (\<lambda>t. s < t) time_options = []" by (simp only: selectbox_None)
    from last_start[OF this e(5)] None show ?thesis by simp
  next
    case (Some t)
    with e(6) have "selectbox (filter (\<lambda>t. s < t) time_options) (end_pick form) = Some t"
      by simp
    then have "t \<in> set (filter (\<lambda>t. s < t) time_options)" by (rule selectbox_mem)
    then have "s < t" by simp
    with Some e(4) show ?thesis by (simp add: starts_before_end_def)
  qed
  with e strip_nonempty[OF e(3)] show ?thesis by blast
qed

text \<open>
  C9. Every event \<^verbatim>\<open>add_event\<close> appends is claimed to have a non-empty name and a start
  before its end. With 17:00 picked as start (position 18 of the start times) no end time
  is on offer, the select box returns None, and the button still appends the event: a
  GRG event with start 17:00 and no end.
\<close>

theorem show_add_event_start_1700_no_end:
  "show_add_event [] (grg_form 18 0) =
     Inr (EventAdded ''GRG001'',
          [\<lparr>event_id = Some ''GRG001'', etype = Some ''grg'', school_name = Some [],
            event_name = Some ''GRG Session'', grade = Some [], num_students = Some 0,
            date = Some ''2025-06-03'', start_time = Some ''17:00'', end_time = None,
            required = Some 2\<rparr>]) \<and>
   \<not> starts_before_end
       \<lparr>event_id = Some ''GRG001'', etype = Some ''grg'', school_name = Some [],
        event_name = Some ''GRG Session'', grade = Some [], num_students = Some 0,
        date = Some ''2025-06-03'', start_time = Some ''17:00'', end_time = None,
        required = Some 2\<rparr>"
  by code_simp

section \<open>Properties of adding assignments\<close>

text \<open>
  C6. Whenever the pair of event and volunteer is already a row of the assignments, the
  button body reports the duplicate (the warning of line 275) and returns the table as
  it was.
\<close>

theorem assign_volunteer_duplicate:
  assumes "a \<in> set assignments_df" "event_id a = Some e" "assignment.volunteer a = Some v"
  shows "assign_volunteer assignments_df e v = (AlreadyAssigned, assignments_df)"
  using assms by (auto simp: assign_volunteer_def filter_empty_conv)

theorem assign_volunteer_duplicate_witness:
  "assigned_to ''COR001'' ''Ann Lee'' \<in> set five_assigned \<and>
   event_id (assigned_to ''COR001'' ''Ann Lee'') = Some ''COR001'' \<and>
   assignment.volunteer (assigned_to ''COR001'' ''Ann Lee'') = Some ''Ann Lee'' \<and>
   assign_volunteer five_assigned ''COR001'' ''Ann Lee'' = (AlreadyAssigned, five_assigned)"
proof -
  have 1: "assigned_to ''COR001'' ''Ann Lee'' \<in> set five_assigned"
    by (simp add: five_assigned_def)
  have 2: "event_id (assigned_to ''COR001'' ''Ann Lee'') = Some ''COR001''"
    by (simp add: assigned_to_def)
  have 3: "assignment.volunteer (assigned_to ''COR001'' ''Ann Lee'') = Some ''Ann Lee''"
    by (simp add: assigned_to_def)
  from assign_volunteer_duplicate[OF 1 2 3] 1 2 3 show ?thesis by blast
qed

text \<open>A pair that is not yet a row, both parts together, is appended.\<close>

lemma assign_volunteer_new:
  assumes "\<And>a. a \<in> set assignments_df \<Longrightarrow>
             event_id a \<noteq> Some e \<or> assignment.volunteer a \<noteq> Some v"
  shows "assign_volunteer assignments_df e v =
           (Assigned v e,
            assignments_df @ [\<lparr>event_id = Some e, assignment.volunteer = Some v\<rparr>])"
proof -
  have "filter (\<lambda>a. event_id a = Some e \<and> assignment.volunteer a = Some v) assignments_df = []"
    using assms by (auto simp: filter_empty_conv)
  then show ?thesis by (simp add: assign_volunteer_def)
qed

lemma assign_volunteer_new_example:
  "assign_volunteer five_assigned ''COR002'' ''Ann Lee'' =
     (Assigned ''Ann Lee'' ''COR002'', five_assigned @ [assigned_to ''COR002'' ''Ann Lee''])"
  "assign_volunteer five_assigned ''COR001'' ''Flo Ray'' =
     (Assigned ''Flo Ray'' ''COR001'', five_assigned @ [assigned_to ''COR001'' ''Flo Ray''])"
  by code_simp+

lemma display_to_id_mem:
  "map_of (rev (map (\<lambda>row. (display row, event_id row)) events_df)) k = Some i \<Longrightarrow>
   i \<in> event_id ` set events_df"
  by (auto dest!: map_of_SomeD)

lemma display_to_id_dom:
  "row \<in> set events_df \<Longrightarrow>
   map_of (rev (map (\<lambda>row. (display row, event_id row)) events_df)) (display row) \<noteq> None"
  by (auto simp: map_of_eq_None_iff image_iff intro!: bexI[of _ row])

lemma display_nonempty: "display row \<noteq> []"
  by (simp add: display_def)

text \<open>
  What the page does to the assignments: it leaves them as they were, or (when it reports
  an assignment) appends one row, whose identifier is that of a row of the events and
  whose pair was not there before.
\<close>

lemma show_add_assignment_outcomes:
  assumes "show_add_assignment events_df volunteers_df assignments_df event_pick volunteer_pick
             clicked = (out, assignments_df')"
  shows "(assignments_df' = assignments_df \<and> (\<forall>v e. out \<noteq> Inr (Assigned v e))) \<or>
     (\<exists>e v. out = Inr (Assigned v e) \<and> Some e \<in> event_id ` set events_df \<and>
            filter (\<lambda>a. event_id a = Some e \<and> assignment.volunteer a = Some v)
              assignments_df = [] \<and>
            assignments_df' =
              assignments_df @ [\<lparr>event_id = Some e, assignment.volunteer = Some v\<rparr>])"
  using assms unfolding show_add_assignment_def Let_def assign_volunteer_def
  by (auto split: if_splits option.splits dest!: display_to_id_mem)

text \<open>
  When no row of the events has an identifier, whatever is picked, the lookup of line
  246 finds no row: the page raises IndexError and the assignments stay as they were.
\<close>

lemma show_add_assignment_no_identifier:
  assumes "events_df \<noteq> []" "volunteers_df \<noteq> []" "\<And>row. row \<in> set events_df \<Longrightarrow> event_id row = None"
  shows "show_add_assignment events_df volunteers_df assignments_df event_pick volunteer_pick
           clicked = (Inl IndexError, assignments_df)"
proof -
  from assms(1) obtain d where d: "selectbox (map display events_df) event_pick = Some d"
    by (cases "selectbox (map display events_df) event_pick") (auto simp: selectbox_None)
  from selectbox_mem[OF d] obtain row where row: "row \<in> set events_df" "d = display row"
    by auto
  from display_to_id_dom[OF row(1)] obtain i where
    i: "map_of (rev (map (\<lambda>row. (display row, event_id row)) events_df)) d = Some i"
    by (auto simp: row(2))
  from display_to_id_mem[OF i] assms(3) have "i = None" by auto
  with i d assms(1,2) display_nonempty[of row] show ?thesis
    by (simp add: show_add_assignment_def Let_def row(2))
qed

lemma show_add_assignment_examples:
  "show_add_assignment [grg_event ''GRG001''] [ann_lee] [] 0 0 True =
     (Inr (Assigned ''Ann Lee'' ''GRG001''), [assigned_to ''GRG001'' ''Ann Lee''])"
  "show_add_assignment [] [ann_lee] [] 0 0 True = (Inr NoEvents, [])"
  by code_simp+


section \<open>Properties of the reconciliation\<close>

lemma reconcile_total:
  assumes "list_all (\<lambda>e. required e \<noteq> None) evs"
  shows "reconcile evs asg = Inr (map (\<lambda>e. reconcile_row asg e (the (required e))) evs)"
proof -
  from assms have "\<not> list_ex (\<lambda>e. required e = None) evs"
    by (auto simp: list_all_iff list_ex_iff)
  moreover from assms
  have "List.map_filter (\<lambda>e. map_option (reconcile_row asg e) (required e)) evs =
        map (\<lambda>e. reconcile_row asg e (the (required e))) evs"
    by (induction evs) (auto simp: map_filter_simps)
  ultimately show ?thesis by (simp add: reconcile_def)
qed

lemma reconcile_Inr:
  assumes "reconcile evs asg = Inr rows"
  shows "list_all (\<lambda>e. required e \<noteq> None) evs \<and>
         rows = map (\<lambda>e. reconcile_row asg e (the (required e))) evs"
proof -
  from assms have "\<not> list_ex (\<lambda>e. required e = None) evs"
    by (auto simp: reconcile_def split: if_splits)
  then have a: "list_all (\<lambda>e. required e \<noteq> None) evs"
    by (auto simp: list_all_iff list_ex_iff)
  from reconcile_total[OF a, of asg] assms show ?thesis using a by simp
qed

lemma reconcile_raises:
  "list_ex (\<lambda>e. required e = None) evs \<Longrightarrow> reconcile evs asg = Inl ValueError"
  by (simp add: reconcile_def)

lemma assigned_reconcile_row:
  "assigned (reconcile_row asg e r) = word_of_nat (length (filter (\<lambda>a. same_event a e) asg))"
  by (auto simp: reconcile_row_def Let_def same_event_def assigned_counts_def event.defs
      split: option.splits)

lemma still_required_reconcile_row:
  "still_required (reconcile_row asg e r) =
     (if 0 <s r - assigned (reconcile_row asg e r) then r - assigned (reconcile_row asg e r)
      else 0)"
  by (auto simp: reconcile_row_def Let_def event.defs split: option.splits)

lemma fields_reconcile_row:
  "event_id (reconcile_row asg e r) = event_id e \<and>
   required (reconcile_row asg e r) = required e"
  by (auto simp: reconcile_row_def Let_def event.defs split: option.splits)

text \<open>A count below \<open>2 ^ 63\<close> is the signed value of its 64-bit word.\<close>

lemma sint_count:
  assumes "n < 2 ^ 63"
  shows "sint (word_of_nat n :: int64) = int n"
proof -
  have "sint (word_of_nat n :: int64) = signed_take_bit 63 (int n)"
    by (simp add: signed_of_nat)
  also have "\<dots> = int n"
    using assms by (intro signed_take_bit_int_eq_self) simp_all
  finally show ?thesis .
qed

lemma sint_int64_bounds: "- (2 ^ 63) \<le> sint (w :: int64) \<and> sint w < 2 ^ 63"
  using sint_ge[of w] sint_lt[of w] by simp

text \<open>What is still required is never negative, wrapped or not.\<close>

lemma still_required_nonneg: "0 \<le> sint (still_required (reconcile_row asg e r))"
  by (simp add: still_required_reconcile_row word_sless_alt)

text \<open>
  Where the difference stays within 64 bits, what is still required is the maximum of
  required minus assigned and zero. Every required number from 1 on is in that range.
\<close>

lemma still_required_in_range:
  assumes "length asg < 2 ^ 63"
    and "- (2 ^ 63) \<le> sint r - int (length (filter (\<lambda>a. same_event a e) asg))"
  shows "sint (assigned (reconcile_row asg e r)) =
           int (length (filter (\<lambda>a. same_event a e) asg)) \<and>
         sint (still_required (reconcile_row asg e r)) =
           max (sint r - int (length (filter (\<lambda>a. same_event a e) asg))) 0"
proof -
  let ?n = "length (filter (\<lambda>a. same_event a e) asg)"
  have n: "?n < 2 ^ 63" by (rule le_less_trans[OF length_filter_le assms(1)])
  have a: "sint (assigned (reconcile_row asg e r)) = int ?n"
    by (simp only: assigned_reconcile_row sint_count[OF n])
  have "sint r - int ?n < 2 ^ 63"
    using sint_int64_bounds[of r] by simp
  with assms(2) have "signed_take_bit 63 (sint r - int ?n) = sint r - int ?n"
    by (intro signed_take_bit_int_eq_self) simp_all
  then have d: "sint (r - assigned (reconcile_row asg e r)) = sint r - int ?n"
    by (simp add: sint_word_diff a)
  have "sint (still_required (reconcile_row asg e r)) = max (sint r - int ?n) 0"
    by (simp add: still_required_reconcile_row word_sless_alt d)
  with a show ?thesis by simp
qed

lemma still_required_from_one:
  assumes "length asg < 2 ^ 63" "1 \<le> sint r"
  shows "sint (still_required (reconcile_row asg e r)) =
           max (sint r - int (length (filter (\<lambda>a. same_event a e) asg))) 0"
proof -
  have "length (filter (\<lambda>a. same_event a e) asg) < 2 ^ 63"
    by (rule le_less_trans[OF length_filter_le assms(1)])
  then have "int (length (filter (\<lambda>a. same_event a e) asg)) < 2 ^ 63"
    by (metis of_nat_less_iff of_nat_numeral of_nat_power)
  with assms(2)
  have "- (2 ^ 63) \<le> sint r - int (length (filter (\<lambda>a. same_event a e) asg))"
    by linarith
  from still_required_in_range[OF assms(1) this] show ?thesis by simp
qed

text \<open>
  The details page: when the first event with the identifier has a required number and
  no assignment of the event lacks a name, it shows the number of the assignments and
  the maximum of required minus assigned and zero, for every required number.
\<close>

lemma show_event_details_returns:
  assumes "filter (\<lambda>e. event_id e = Some i) evs = e # es" "required e = Some r"
    and "\<And>a. a \<in> set asg \<Longrightarrow> event_id a = Some i \<Longrightarrow> assignment.volunteer a \<noteq> None"
  shows "show_event_details evs asg i =
           Inr (Details (int (length (filter (\<lambda>a. event_id a = Some i) asg)))
                  (max (sint r - int (length (filter (\<lambda>a. event_id a = Some i) asg))) 0))"
proof -
  have "\<not> list_ex (\<lambda>v. v = None)
           (map assignment.volunteer (filter (\<lambda>a. event_id a = Some i) asg))"
    using assms(3) by (fastforce simp: list_ex_iff)
  with assms(1,2) show ?thesis by (simp add: show_event_details_def Let_def)
qed

lemma show_event_details_counts:
  assumes "show_event_details evs asg i = Inr (Details a s)"
  shows "a = int (length (filter (\<lambda>x. event_id x = Some i) asg)) \<and>
     (\<exists>e r. e \<in> set evs \<and> event_id e = Some i \<and> required e = Some r \<and>
            s = max (sint r - a) 0)"
proof -
  from assms obtain e es where f: "filter (\<lambda>e. event_id e = Some i) evs = e # es"
    by (auto simp: show_event_details_def split: list.splits)
  then have "e \<in> set (filter (\<lambda>e. event_id e = Some i) evs)" by simp
  then have e: "e \<in> set evs" "event_id e = Some i" by auto
  from assms f obtain r where "required e = Some r"
    "a = int (length (filter (\<lambda>x. event_id x = Some i) asg))" "s = max (sint r - a) 0"
    by (auto simp: show_event_details_def Let_def split: option.splits if_splits)
  with e show ?thesis by blast
qed

lemma reconcile_examples:
  "reconcile [course_event ''COR001'' 2] five_assigned =
     Inr [event.extend (course_event ''COR001'' 2) \<lparr>assigned = 5, still_required = 0\<rparr>]"
  "show_event_details [course_event ''COR001'' 2] five_assigned ''COR001'' = Inr (Details 5 0)"
  "reconcile [course_event ''COR001'' 7] five_assigned =
     Inr [event.extend (course_event ''COR001'' 7) \<lparr>assigned = 5, still_required = 2\<rparr>]"
  "show_event_details [course_event ''COR001'' 7] five_assigned ''COR001'' = Inr (Details 5 2)"
  by code_simp+


section \<open>Properties of the name resolution\<close>

lemma name_map_SomeD:
  "name_map vs k = Some c \<Longrightarrow> \<exists>w \<in> set vs. name_key w = k \<and> full_name w = c"
  by (auto simp: name_map_def dest!: map_of_SomeD)

lemma name_map_dom: "v \<in> set vs \<Longrightarrow> name_key v \<in> dom (name_map vs)"
  by (auto simp: name_map_def dom_map_of_conv_image_fst image_iff intro!: bexI[of _ v])

text \<open>Stripping a text that has blanks around a core without blanks at its ends.\<close>

lemma strip_padded:
  assumes "k \<noteq> []" "\<not> isspace_char (hd k)" "\<not> isspace_char (last k)"
    "list_all isspace_char ws1" "list_all isspace_char ws2"
  shows "strip (ws1 @ k @ ws2) = k"
proof -
  have "dropWhile isspace_char (ws1 @ k @ ws2) = dropWhile isspace_char (k @ ws2)"
    using assms(4) by (simp add: dropWhile_append2 list_all_iff)
  also have "\<dots> = k @ ws2" using assms(1,2) by (cases k) simp_all
  finally have front: "dropWhile isspace_char (ws1 @ k @ ws2) = k @ ws2" .
  have "dropWhile isspace_char (rev ws2 @ rev k) = dropWhile isspace_char (rev k)"
    using assms(5) by (intro dropWhile_append2) (simp add: list_all_iff)
  also have "\<dots> = rev k"
    using assms(1,3) by (cases "rev k") (auto simp: last_rev[symmetric] hd_rev)
  finally show ?thesis by (simp add: strip_def front)
qed

lemma resolve_full_name:
  assumes "\<forall>w \<in> set vs. name_key w = strip (full_name v) \<longrightarrow> full_name w = full_name v"
  shows "resolve_volunteer vs (Some (full_name v)) = Some (full_name v)"
  using assms by (auto simp: resolve_volunteer_def split: option.splits dest!: name_map_SomeD)

text \<open>
  C10, as claimed: a volunteer with a blank alias is keyed by the full name, so the full
  name resolves to itself. Ann Lee has a blank alias, and a later row, Bea Kay, has the
  alias Ann Lee; the dictionary keeps the later row, and Ann Lee resolves to Bea Kay.
\<close>

theorem full_name_overridden_by_later_alias:
  "alias_col ann_lee = None \<and> full_name ann_lee = ''Ann Lee'' \<and>
   resolve_volunteer [ann_lee, bea_kay ''Ann Lee''] (Some (full_name ann_lee)) = Some ''Bea Kay''"
  by code_simp

text \<open>
  C10, amended. The raw name is stripped before the lookup, so a key with blanks around
  it resolves to the full name stored under the key. A volunteer with a blank alias has
  the full name as key in the table. A full name resolves to itself provided no row
  whose key is the stripped full name carries another full name. A raw name whose
  stripped form is no key stays as it was, blanks included.
\<close>

theorem resolve_volunteer_lookup:
  "(k \<noteq> [] \<and> \<not> isspace_char (hd k) \<and> \<not> isspace_char (last k) \<and>
    list_all isspace_char ws1 \<and> list_all isspace_char ws2 \<and> name_map vs k = Some c \<longrightarrow>
      resolve_volunteer vs (Some (ws1 @ k @ ws2)) = Some c) \<and>
   (name_map vs (strip raw) = Some c \<longrightarrow> resolve_volunteer vs (Some raw) = Some c) \<and>
   (v \<in> set vs \<and> alias_col v = None \<longrightarrow> full_name v \<in> dom (name_map vs)) \<and>
   ((\<forall>w \<in> set vs. name_key w = strip (full_name v) \<longrightarrow> full_name w = full_name v) \<longrightarrow>
      resolve_volunteer vs (Some (full_name v)) = Some (full_name v)) \<and>
   (name_map vs (strip raw) = None \<longrightarrow> resolve_volunteer vs (Some raw) = Some raw)"
proof (intro conjI impI)
  assume h: "k \<noteq> [] \<and> \<not> isspace_char (hd k) \<and> \<not> isspace_char (last k) \<and>
    list_all isspace_char ws1 \<and> list_all isspace_char ws2 \<and> name_map vs k = Some c"
  then have "strip (ws1 @ k @ ws2) = k" by (intro strip_padded) simp_all
  with h show "resolve_volunteer vs (Some (ws1 @ k @ ws2)) = Some c"
    by (simp add: resolve_volunteer_def)
next
  assume "name_map vs (strip raw) = Some c"
  then show "resolve_volunteer vs (Some raw) = Some c" by (simp add: resolve_volunteer_def)
next
  assume h: "v \<in> set vs \<and> alias_col v = None"
  then have "name_key v = full_name v" by (simp add: name_key_def)
  with name_map_dom[of v vs] h show "full_name v \<in> dom (name_map vs)" by simp
next
  assume "\<forall>w \<in> set vs. name_key w = strip (full_name v) \<longrightarrow> full_name w = full_name v"
  then show "resolve_volunteer vs (Some (full_name v)) = Some (full_name v)"
    by (rule resolve_full_name)
next
  assume "name_map vs (strip raw) = None"
  then show "resolve_volunteer vs (Some raw) = Some raw" by (simp add: resolve_volunteer_def)
qed

lemma resolve_volunteer_examples:
  "name_map [ann_lee, bea_kay ''bk''] ''bk'' = Some ''Bea Kay''"
  "name_map [ann_lee, bea_kay ''bk''] (strip '' Zed '') = None"
  "full_name ann_lee = ''Ann Lee''"
  "strip ''Ann Lee'' = ''Ann Lee''"
  "name_key ann_lee = ''Ann Lee''"
  "name_key (bea_kay ''bk'') = ''bk''"
  by code_simp+

theorem resolve_volunteer_lookup_witness:
  "resolve_volunteer [ann_lee, bea_kay ''bk''] (Some (''  '' @ ''bk'' @ '' '')) = Some ''Bea Kay'' \<and>
   full_name ann_lee \<in> dom (name_map [ann_lee, bea_kay ''bk'']) \<and>
   resolve_volunteer [ann_lee, bea_kay ''bk''] (Some (full_name ann_lee)) = Some (full_name ann_lee) \<and>
   resolve_volunteer [ann_lee, bea_kay ''bk''] (Some '' Zed '') = Some '' Zed ''"
proof -
  note t = resolve_volunteer_lookup
             [of "''bk''" "''  ''" "'' ''" "[ann_lee, bea_kay ''bk'']" "''Bea Kay''" "'' Zed ''"
                 ann_lee]
  have 1: "''bk'' \<noteq> [] \<and> \<not> isspace_char (hd ''bk'') \<and> \<not> isspace_char (last ''bk'') \<and>
    list_all isspace_char ''  '' \<and> list_all isspace_char '' '' \<and>
    name_map [ann_lee, bea_kay ''bk''] ''bk'' = Some ''Bea Kay''"
    using resolve_volunteer_examples(1) by (simp add: isspace_char_def)
  have 2: "ann_lee \<in> set [ann_lee, bea_kay ''bk''] \<and> alias_col ann_lee = None"
    by (simp add: ann_lee_def)
  have 3: "\<forall>w \<in> set [ann_lee, bea_kay ''bk''].
             name_key w = strip (full_name ann_lee) \<longrightarrow> full_name w = full_name ann_lee"
    by (simp add: resolve_volunteer_examples)
  from t 1 have a: "resolve_volunteer [ann_lee, bea_kay ''bk''] (Some (''  '' @ ''bk'' @ '' '')) =
      Some ''Bea Kay''"
    by blast
  from t 2 have b: "full_name ann_lee \<in> dom (name_map [ann_lee, bea_kay ''bk''])" by blast
  from t 3 have c: "resolve_volunteer [ann_lee, bea_kay ''bk''] (Some (full_name ann_lee)) =
      Some (full_name ann_lee)"
    by blast
  from t resolve_volunteer_examples(2)
  have d: "resolve_volunteer [ann_lee, bea_kay ''bk''] (Some '' Zed '') = Some '' Zed ''"
    by blast
  from a b c d show ?thesis by blast
qed

section \<open>Properties of the conflict checker\<close>

subsection \<open>Overlaps\<close>

text \<open>The loop over the positions reads the pairs of neighbours, from position \<open>i\<close> on.\<close>

lemma overlap_loop_zip:
  "0 < i \<Longrightarrow> overlap_loop name sub i =
     concat (map (\<lambda>(prev, curr'). if later (datetime_end prev) (datetime_start curr')
                               then [overlap_message name prev curr'] else [])
                 (zip (drop (i - 1) sub) (drop i sub)))"
proof (induction name sub i rule: overlap_loop.induct)
  case (1 name sub i)
  show ?case
  proof (cases "i < length sub")
    case True
    with "1.prems" have a: "drop (i - 1) sub = sub ! (i - 1) # drop i sub"
      using Cons_nth_drop_Suc[of "i - 1" sub] by simp
    from True have b: "drop i sub = sub ! i # drop (i + 1) sub"
      using Cons_nth_drop_Suc[of i sub] by simp
    have z: "zip (drop (i - 1) sub) (drop i sub) =
             (sub ! (i - 1), sub ! i) # zip (drop i sub) (drop (i + 1) sub)"
      by (subst a, subst b) simp
    from "1.IH"[OF True refl refl]
    have ih: "overlap_loop name sub (i + 1) =
       concat (map (\<lambda>(prev, curr'). if later (datetime_end prev) (datetime_start curr')
                               then [overlap_message name prev curr'] else [])
                 (zip (drop i sub) (drop (i + 1) sub)))"
      by simp
    show ?thesis
      using z ih by (subst overlap_loop.simps) (simp add: True Let_def)
  next
    case False
    then show ?thesis by (subst overlap_loop.simps) simp
  qed
qed

text \<open>The test of the loop is the strict comparison, false on a missing time.\<close>

lemma later_ends_after_start:
  "later (datetime_end prev) (datetime_start curr') = ends_after_start prev curr'"
  by (simp add: later_def ends_after_start_def split: option.splits)

lemma overlap_loop_adjacent: "overlap_loop name sub 1 = adjacent_overlaps name sub"
  by (simp add: overlap_loop_zip adjacent_overlaps_def drop_Suc later_ends_after_start
      overlap_message_def cong: if_cong)



lemma set_unique: "set (unique xs) = set xs"
  by (induction xs rule: unique.induct) auto

lemma distinct_unique: "distinct (unique xs)"
  by (induction xs rule: unique.induct) (auto simp: set_unique)

lemma length_unique: "length (unique xs) = card (set xs)"
  using distinct_card[OF distinct_unique, of xs] by (simp add: set_unique)



lemma concat_names:
  "concat (map (\<lambda>name. case name of None \<Rightarrow> [] | Some n \<Rightarrow> f n) xs) =
   concat (map f (List.map_filter (\<lambda>x. x) xs))"
  by (induction xs) (auto simp: map_filter_simps split: option.splits)

lemma overlap_conflicts_by_pairs:
  "overlap_conflicts df =
     concat (map (\<lambda>n. adjacent_overlaps n (sub_of df n))
                 (List.map_filter (\<lambda>x. x) (unique (map volunteer df))))"
  unfolding overlap_conflicts_def overlap_loop_adjacent by (rule concat_names)

lemma find_conflicts_examples:
  "find_conflicts two_bookings =
     [Overlap ''Bob'' (Some ''2025-06-02'') (Some ''10:00'') (Some ''10:30'')
        (Some ''course'') (Some ''guiding'')]"
  "find_conflicts [short_booking, late_booking, long_booking] =
     [Overlap ''Bob'' (Some ''2025-06-02'') (Some ''10:00'') (Some ''10:30'')
        (Some ''course'') (Some ''guiding'')]"
  "find_conflicts (rev two_bookings) =
     [Overlap ''Bob'' (Some ''2025-06-02'') (Some ''10:00'') (Some ''10:30'')
        (Some ''course'') (Some ''guiding'')]"
  "find_conflicts touching_bookings = []"
  by code_simp+

lemma containment_facts:
  "overlapping long_booking late_booking"
  "volunteer long_booking = Some ''Bob''"
  "volunteer late_booking = Some ''Bob''"
  "long_booking \<noteq> late_booking"
  "event_id long_booking \<noteq> event_id late_booking"
  "overlap_message ''Bob'' long_booking late_booking =
     Overlap ''Bob'' (Some ''2025-06-02'') (Some ''10:00'') (Some ''11:30'')
       (Some ''course'') (Some ''grg'')"
  "overlap_message ''Bob'' late_booking long_booking =
     Overlap ''Bob'' (Some ''2025-06-02'') (Some ''11:30'') (Some ''10:00'')
       (Some ''grg'') (Some ''course'')"
  by code_simp+


text \<open>
  C3. The overlap conflicts of any table come from the adjacent pairs of each
  volunteer's sorted entries only, and checking neighbours does not find every overlap.
  Bob has three bookings: 10:00 to 13:00, 10:30 to 11:00 and 11:30 to 12:00. The first
  and the third overlap, they are not neighbours in the order of their starts, and no
  message of the checker is about the two of them, in either order.
\<close>

theorem adjacent_check_misses_containment:
  "overlap_conflicts table =
     concat (map (\<lambda>n. adjacent_overlaps n (sub_of table n))
                 (List.map_filter (\<lambda>x. x) (unique (map volunteer table)))) \<and>
   (\<exists>(df :: entry list) a c n.
     length df = 3 \<and> a \<in> set df \<and> c \<in> set df \<and> a \<noteq> c \<and>
     volunteer a = Some n \<and> volunteer c = Some n \<and> overlapping a c \<and>
     overlap_message n a c \<notin> set (find_conflicts df) \<and>
     overlap_message n c a \<notin> set (find_conflicts df))"
proof -
  let ?df = "[short_booking, late_booking, long_booking]"
  have "length ?df = 3 \<and> long_booking \<in> set ?df \<and> late_booking \<in> set ?df \<and>
        long_booking \<noteq> late_booking \<and>
        volunteer long_booking = Some ''Bob'' \<and> volunteer late_booking = Some ''Bob'' \<and>
        overlapping long_booking late_booking \<and>
        overlap_message ''Bob'' long_booking late_booking \<notin> set (find_conflicts ?df) \<and>
        overlap_message ''Bob'' late_booking long_booking \<notin> set (find_conflicts ?df)"
    unfolding find_conflicts_examples(2) containment_facts(6,7)
    using containment_facts(1-4) by simp
  then have "\<exists>(df :: entry list) a c n.
     length df = 3 \<and> a \<in> set df \<and> c \<in> set df \<and> a \<noteq> c \<and>
     volunteer a = Some n \<and> volunteer c = Some n \<and> overlapping a c \<and>
     overlap_message n a c \<notin> set (find_conflicts df) \<and>
     overlap_message n c a \<notin> set (find_conflicts df)"
    by blast
  with overlap_conflicts_by_pairs[of table] show ?thesis by (rule conjI)
qed

subsection \<open>Overbooking\<close>

lemma apply_filters_start:
  "r \<in> set (apply_filters merged_df sv st sd ed) \<Longrightarrow>
   \<exists>t. datetime_start r = Some t \<and> sd \<le> dt_date t \<and> dt_date t \<le> ed"
  by (auto simp: apply_filters_def Let_def split: if_splits option.splits)

lemma grg_df_is_grg: "grg_df df = filter is_grg df"
  by (simp add: grg_df_def is_grg_def[abs_def])

lemma group_key_Some:
  "group_key r = Some (e, d) \<longleftrightarrow> event_id r = Some e \<and> date r = Some d"
  by (auto simp: group_key_def split: option.splits)

lemma volunteer_count_card:
  "volunteer_count (grg_df df) (e, d) = card (group_volunteers df e d)"
proof -
  have "filter (\<lambda>r. group_key r = Some (e, d)) (filter is_grg df) =
        filter (\<lambda>r. is_grg r \<and> event_id r = Some e \<and> date r = Some d) df"
    by (auto simp: group_key_Some intro: filter_cong)
  then show ?thesis
    by (simp add: volunteer_count_def length_unique grg_df_is_grg group_volunteers_def)
qed

lemma count_pos_key:
  assumes "0 < card (group_volunteers df e d)"
  shows "(e, d) \<in> set (List.map_filter group_key (grg_df df))"
proof -
  from assms have "group_volunteers df e d \<noteq> {}" by auto
  then obtain r where r: "r \<in> set df" "is_grg r" "event_id r = Some e" "date r = Some d"
    by (auto simp: group_volunteers_def map_filter_def)
  then have "group_key r = Some (e, d)" by (simp add: group_key_Some)
  with r show ?thesis
    by (auto simp: map_filter_def grg_df_is_grg image_iff intro!: bexI[of _ r])
qed

lemma length_filter_distinct:
  "distinct xs \<Longrightarrow>
   length (filter (\<lambda>x. x = k \<and> P x) xs) = (if k \<in> set xs \<and> P k then 1 else 0)"
  by (induction xs) auto

lemma capacity_count:
  "length (filter (overbooked_for e d) (capacity_conflicts df)) =
     (if 2 < card (group_volunteers df e d) then 1 else 0)"
proof -
  define keys where "keys = sort (remdups (List.map_filter group_key (grg_df df)))"
  have dk: "distinct keys" by (simp add: keys_def)
  have sk: "set keys = set (List.map_filter group_key (grg_df df))" by (simp add: keys_def)
  have cc: "capacity_conflicts df =
      map (\<lambda>(e, d). Overbooked e d (volunteer_count (grg_df df) (e, d)))
          (filter (\<lambda>key. 2 < volunteer_count (grg_df df) key) keys)"
    by (simp add: capacity_conflicts_def grg_counts_def keys_def filter_map comp_def
        case_prod_unfold)
  have "length (filter (overbooked_for e d) (capacity_conflicts df)) =
        length (filter (\<lambda>key. key = (e, d) \<and> 2 < volunteer_count (grg_df df) key) keys)"
    unfolding cc
    by (simp add: filter_map comp_def overbooked_for_def case_prod_unfold prod_eq_iff
        conj_commute)
  also have "\<dots> = (if (e, d) \<in> set keys \<and> 2 < volunteer_count (grg_df df) (e, d) then 1 else 0)"
    by (rule length_filter_distinct[OF dk])
  also have "\<dots> = (if 2 < card (group_volunteers df e d) then 1 else 0)"
    using count_pos_key[of df e d] by (auto simp: sk volunteer_count_card)
  finally show ?thesis .
qed

lemma capacity_mem:
  "Overbooked e d n \<in> set (capacity_conflicts df) \<longleftrightarrow>
     n = card (group_volunteers df e d) \<and> 2 < n"
proof -
  have "Overbooked e d n \<in> set (capacity_conflicts df) \<longleftrightarrow>
        (e, d) \<in> set (List.map_filter group_key (grg_df df)) \<and>
        n = volunteer_count (grg_df df) (e, d) \<and> 2 < n"
    by (auto simp: capacity_conflicts_def grg_counts_def image_iff)
  then show ?thesis using count_pos_key[of df e d] by (auto simp: volunteer_count_card)
qed

lemma show_dashboard_examples:
  "show_dashboard no_end ''All'' [''grg''] 20241 20241 =
     Some [Overbooked ''GRG001'' ''2025-06-02'' 3]"
  "show_dashboard three_grg ''All'' [''GRG'', ''grg'', ''Grg''] 20241 20241 =
     Some [Overbooked ''GRG001'' ''2025-06-02'' 3]"
  "capacity_conflicts three_grg = [Overbooked ''GRG001'' ''2025-06-02'' 3]"
  "filter has_interval no_end = []"
  by code_simp+

text \<open>
  C5, as claimed: the capacity check counts only entries with an interval. Three GRG
  bookings of one event and date whose end time does not parse have a start and no end;
  none of them has an interval, they pass the filters of the dashboard, and the check
  reports the event as overbooked with 3 volunteers.
\<close>

theorem capacity_counts_entries_without_end:
  "filter has_interval no_end = [] \<and>
   show_dashboard no_end ''All'' [''grg''] 20241 20241 =
     Some [Overbooked ''GRG001'' ''2025-06-02'' 3]"
  using show_dashboard_examples(1,4) by simp

text \<open>
  C5, amended. The capacity check runs over the entries that pass the filters of the
  dashboard; each of them has a start, while its end may be missing. Among the entries
  whose type is grg in any mix of cases, it counts for each event and date the distinct
  volunteers; it emits a message for an event, a date and a number exactly when the
  number is that count and exceeds 2, and so exactly one message for a group with a
  count above 2 and none for any other.
\<close>

theorem capacity_conflicts_groups:
  "(r \<in> set (apply_filters merged_df sv st sd ed) \<longrightarrow> datetime_start r \<noteq> None) \<and>
   (Overbooked e d n \<in> set (capacity_conflicts df) \<longleftrightarrow>
      n = card (group_volunteers df e d) \<and> 2 < n) \<and>
   length (filter (overbooked_for e d) (capacity_conflicts df)) =
     (if 2 < card (group_volunteers df e d) then 1 else 0)"
  using apply_filters_start[of r merged_df sv st sd ed] capacity_mem[of e d n df]
        capacity_count[of e d df]
  by auto

theorem capacity_conflicts_groups_witness:
  "booking ''Ann'' ''GRG001'' ''GRG'' ''10:00'' ''11:00'' (Some t1000) (Some t1100)
     \<in> set (apply_filters three_grg ''All'' [''GRG'', ''grg'', ''Grg''] 20241 20241) \<and>
   datetime_start (booking ''Ann'' ''GRG001'' ''GRG'' ''10:00'' ''11:00'' (Some t1000) (Some t1100))
     \<noteq> None \<and>
   card (group_volunteers three_grg ''GRG001'' ''2025-06-02'') = 3 \<and>
   Overbooked ''GRG001'' ''2025-06-02'' 3 \<in> set (capacity_conflicts three_grg) \<and>
   length (filter (overbooked_for ''GRG001'' ''2025-06-02'') (capacity_conflicts three_grg)) = 1 \<and>
   card (group_volunteers three_grg ''GRG002'' ''2025-06-02'') = 2 \<and>
   length (filter (overbooked_for ''GRG002'' ''2025-06-02'') (capacity_conflicts three_grg)) = 0"
proof -
  let ?b = "booking ''Ann'' ''GRG001'' ''GRG'' ''10:00'' ''11:00'' (Some t1000) (Some t1100)"
  have 1: "?b \<in> set (apply_filters three_grg ''All'' [''GRG'', ''grg'', ''Grg''] 20241 20241)"
    by code_simp
  have 2: "card (group_volunteers three_grg ''GRG001'' ''2025-06-02'') = 3"
    by code_simp
  have 3: "card (group_volunteers three_grg ''GRG002'' ''2025-06-02'') = 2"
    by code_simp
  from capacity_conflicts_groups
         [of ?b three_grg "''All''" "[''GRG'', ''grg'', ''Grg'']" 20241 20241
             "''GRG001''" "''2025-06-02''" 3 three_grg] 1 2
  have a: "datetime_start ?b \<noteq> None"
    and b: "Overbooked ''GRG001'' ''2025-06-02'' 3 \<in> set (capacity_conflicts three_grg)"
    and c: "length (filter (overbooked_for ''GRG001'' ''2025-06-02'')
                      (capacity_conflicts three_grg)) = 1"
    by simp_all
  from capacity_conflicts_groups
         [of ?b three_grg "''All''" "[''GRG'', ''grg'', ''Grg'']" 20241 20241
             "''GRG002''" "''2025-06-02''" 3 three_grg] 3
  have d: "length (filter (overbooked_for ''GRG002'' ''2025-06-02'')
                     (capacity_conflicts three_grg)) = 0"
    by simp
  from 1 2 3 a b c d show ?thesis by blast
qed

end
